theory Spec2Isabelle
  imports
    Complex_Main
    "HOL-Library.Multiset"
    "HOL-Library.Char_ord"
    "HOL-Library.List_Lexorder"
begin

section \<open>The query layer of the Titanic data app (app.py)\<close>

text \<open>
  The functions below follow the route handlers of \<^verbatim>\<open>app.py\<close>, one definition per
  handler, over the table that \<^verbatim>\<open>get_df()\<close> hands them: the frame after
  \<^verbatim>\<open>_clean\<close>.

  \<^item> A row is a record with one field per column the source names. After \<^verbatim>\<open>_clean\<close>
    the columns PassengerId, Survived, Pclass, SibSp and Parch are nullable integers
    (\<^verbatim>\<open>Int64\<close>), Age, Fare and Age_wiki are floats, and the others hold text. A missing
    value (\<^verbatim>\<open>NaN\<close>, \<^verbatim>\<open>pd.NA\<close>) is \<open>None\<close>.
  \<^item> A frame is the list of its column names together with its rows. A field of a
    column that the frame does not have is never read: every access goes through the
    column list first, and raises \<^verbatim>\<open>KeyError\<close> as pandas does.
  \<^item> Floats are read as the rationals they denote; \<^verbatim>\<open>inf\<close> is not modelled. Python's
    \<^verbatim>\<open>round\<close> is round-half-to-even on these rationals, so a result may differ from the
    binary float's only where the exact quotient is a tie that the float misses.
  \<^item> An exception is a value \<open>Inl e\<close>; a handler that returns gives \<open>Inr\<close>.
\<close>

subsection \<open>Data model\<close>

datatype error =
    KeyError "string list"
  | TypeError
  | ValueError
  | AttributeError
  | IndexError
  | ReError
  | ValidationError

record passenger =
  PassengerId :: "int option"
  Survived :: "int option"
  Pclass :: "int option"
  Name :: "string option"
  Sex :: "string option"
  Age :: "rat option"
  SibSp :: "int option"
  Parch :: "int option"
  Fare :: "rat option"
  Age_wiki :: "rat option"
  Boarded :: "string option"
  Embarked :: "string option"
  Destination :: "string option"
  Lifeboat :: "string option"
  Hometown :: "string option"

record dataframe =
  columns :: "string list"
  rows :: "passenger list"

text \<open>\<^verbatim>\<open>len(df)\<close>, a Python int.\<close>

definition len :: "'a list \<Rightarrow> int" where
  "len xs = int (length xs)"

text \<open>
  \<^verbatim>\<open>df[c]\<close>: the column's values, or \<^verbatim>\<open>KeyError\<close> when the frame has no such column.
  The error carries the names that were not found.
\<close>

definition getitem :: "dataframe \<Rightarrow> string \<Rightarrow> (passenger \<Rightarrow> 'a) \<Rightarrow> error + 'a list" where
  "getitem df c field =
     (if c \<in> set (columns df) then Inr (map field (rows df)) else Inl (KeyError [c]))"

text \<open>\<^verbatim>\<open>dropna\<close> on one series: the values that are present, in order.\<close>

definition dropna :: "'a option list \<Rightarrow> 'a list" where
  "dropna xs = map the (filter (\<lambda>v. v \<noteq> None) xs)"

text \<open>\<^verbatim>\<open>Series.sum()\<close> skips missing values; the sum of nothing is 0.\<close>

definition series_sum :: "int option list \<Rightarrow> int" where
  "series_sum xs = sum_list (dropna xs)"

text \<open>
  \<^verbatim>\<open>Series.mean()\<close> and \<^verbatim>\<open>Series.max()\<close> skip missing values and are missing
  themselves when nothing is left.
\<close>

definition series_mean :: "rat option list \<Rightarrow> rat option" where
  "series_mean xs =
     (let ys = dropna xs in if ys = [] then None else Some (sum_list ys / of_nat (length ys)))"

definition series_max :: "rat option list \<Rightarrow> rat option" where
  "series_max xs =
     (let ys = dropna xs in if ys = [] then None else Some (fold max (tl ys) (hd ys)))"

text \<open>Python's \<^verbatim>\<open>round(x)\<close>: the nearest integer, a tie going to the even neighbour.\<close>

definition py_round :: "rat \<Rightarrow> int" where
  "py_round x =
     (let f = \<lfloor>x\<rfloor>; d = x - of_int f
      in if d < 1 / 2 then f
         else if 1 / 2 < d then f + 1
         else if even f then f else f + 1)"

text \<open>\<^verbatim>\<open>round(x, 1)\<close> and \<^verbatim>\<open>round(x, 2)\<close>.\<close>

definition round1 :: "rat \<Rightarrow> rat" where
  "round1 x = of_int (py_round (x * 10)) / 10"

definition round2 :: "rat \<Rightarrow> rat" where
  "round2 x = of_int (py_round (x * 100)) / 100"

subsection \<open>/api/stats\<close>

record stats_result =
  st_total :: int
  st_survivors :: int
  st_lost :: int
  st_surv_rate :: rat
  st_avg_age :: "rat option"
  st_avg_fare :: "rat option"
  st_max_fare :: "rat option"

text \<open>
  \<^verbatim>\<open>_nan(round(df["Age"].mean(), 1)) if "Age" in df.columns else None\<close>: a missing mean
  is \<^verbatim>\<open>nan\<close>, which \<^verbatim>\<open>round\<close> with digits passes on and \<^verbatim>\<open>_nan\<close> turns into
  \<^verbatim>\<open>None\<close>.
\<close>

definition stats :: "dataframe \<Rightarrow> error + stats_result" where
  "stats df =
     (let total = len (rows df)
      in case getitem df ''Survived'' Survived of
           Inl e \<Rightarrow> Inl e
         | Inr s \<Rightarrow>
             (let surv = series_sum s
              in Inr \<lparr> st_total = total,
                       st_survivors = surv,
                       st_lost = total - surv,
                       st_surv_rate =
                         (if total \<noteq> 0 then round1 (of_int surv / of_int total * 100) else 0),
                       st_avg_age =
                         (if ''Age'' \<in> set (columns df)
                          then map_option round1 (series_mean (map Age (rows df))) else None),
                       st_avg_fare =
                         (if ''Fare'' \<in> set (columns df)
                          then map_option round2 (series_mean (map Fare (rows df))) else None),
                       st_max_fare =
                         (if ''Fare'' \<in> set (columns df)
                          then map_option round2 (series_max (map Fare (rows df))) else None) \<rparr>))"


subsection \<open>Boolean indexing and the loops over groups\<close>

text \<open>\<^verbatim>\<open>df[mask]\<close>: the rows whose mask entry is true, with the same columns.\<close>

definition boolean_index :: "dataframe \<Rightarrow> bool list \<Rightarrow> dataframe" where
  "boolean_index df msk = df\<lparr>rows := map fst (filter snd (zip (rows df) msk))\<rparr>"

text \<open>
  The handlers that build \<^verbatim>\<open>out\<close> in a loop: each item appends one entry, appends
  nothing, or raises, and the first exception ends the loop.
\<close>

fun collect :: "('a \<Rightarrow> error + 'b option) \<Rightarrow> 'a list \<Rightarrow> error + 'b list" where
  "collect f [] = Inr []"
| "collect f (x # xs) =
     (case f x of
        Inl e \<Rightarrow> Inl e
      | Inr v \<Rightarrow>
          (case collect f xs of
             Inl e \<Rightarrow> Inl e
           | Inr out \<Rightarrow> Inr (case v of None \<Rightarrow> out | Some y \<Rightarrow> y # out)))"

text \<open>
  \<^verbatim>\<open>round(sub["Survived"].mean()*100)\<close>. The mean of an \<^verbatim>\<open>Int64\<close> series with no
  value present is \<^verbatim>\<open>pd.NA\<close>, which \<^verbatim>\<open>round\<close> rejects.
\<close>

definition survival_pct :: "int option list \<Rightarrow> error + int" where
  "survival_pct s =
     (case series_mean (map (map_option of_int) s) of
        None \<Rightarrow> Inl TypeError
      | Some m \<Rightarrow> Inr (py_round (m * 100)))"

subsection \<open>/api/by-class\<close>

record class_result =
  cl_class :: int
  cl_label :: string
  cl_total :: int
  cl_survived :: int
  cl_pct :: int

definition by_class_entry :: "dataframe \<Rightarrow> int \<times> string \<Rightarrow> error + class_result option" where
  "by_class_entry df = (\<lambda>(cls, label).
     case getitem df ''Pclass'' Pclass of
       Inl e \<Rightarrow> Inl e
     | Inr pc \<Rightarrow>
         (let sub = boolean_index df (map (\<lambda>v. v = Some cls) pc)
          in if len (rows sub) \<noteq> 0
             then (case getitem sub ''Survived'' Survived of
                     Inl e \<Rightarrow> Inl e
                   | Inr s \<Rightarrow>
                       (case survival_pct s of
                          Inl e \<Rightarrow> Inl e
                        | Inr p \<Rightarrow>
                            Inr (Some \<lparr> cl_class = cls, cl_label = label,
                                        cl_total = len (rows sub),
                                        cl_survived = series_sum s, cl_pct = p \<rparr>)))
             else Inr None))"

definition by_class :: "dataframe \<Rightarrow> error + class_result list" where
  "by_class df =
     collect (by_class_entry df) [(1, ''1st Class''), (2, ''2nd Class''), (3, ''3rd Class'')]"

subsection \<open>/api/by-gender\<close>

record gender_result =
  ge_sex :: string
  ge_label :: string
  ge_survived :: int
  ge_lost :: int

definition by_gender_entry :: "dataframe \<Rightarrow> string \<times> string \<Rightarrow> error + gender_result option" where
  "by_gender_entry df = (\<lambda>(sex, label).
     case getitem df ''Sex'' Sex of
       Inl e \<Rightarrow> Inl e
     | Inr sx \<Rightarrow>
         (let sub = boolean_index df (map (\<lambda>v. v = Some sex) sx)
          in if len (rows sub) \<noteq> 0
             then (case getitem sub ''Survived'' Survived of
                     Inl e \<Rightarrow> Inl e
                   | Inr sv \<Rightarrow>
                       (let s = series_sum sv
                        in Inr (Some \<lparr> ge_sex = sex, ge_label = label,
                                       ge_survived = s, ge_lost = len (rows sub) - s \<rparr>)))
             else Inr None))"

definition by_gender :: "dataframe \<Rightarrow> error + gender_result list" where
  "by_gender df = collect (by_gender_entry df) [(''female'', ''Female''), (''male'', ''Male'')]"

subsection \<open>/api/by-port\<close>


text \<open>\<^verbatim>\<open>_port_col\<close> and the field that the chosen column names.\<close>

definition port_col :: "dataframe \<Rightarrow> string" where
  "port_col df = (if ''Boarded'' \<in> set (columns df) then ''Boarded'' else ''Embarked'')"

definition port_field :: "string \<Rightarrow> passenger \<Rightarrow> string option" where
  "port_field col = (if col = ''Boarded'' then Boarded else Embarked)"





subsection \<open>/api/by-age-group\<close>









subsection \<open>Sorting a frame by one column\<close>

text \<open>
  \<^verbatim>\<open>sort_values(by, ascending, na_position="last")\<close>, as pandas computes it: the
  rows with a missing key go last in their own order; the others are sorted by the key,
  and for a descending sort they are reversed, sorted ascending and reversed again.
  pandas sorts with its default \<^verbatim>\<open>quicksort\<close>, which leaves the order of rows with equal
  keys open; the stable \<open>sort_key\<close> fixes it here to the order of the frame.
\<close>

definition sort_values :: "('a \<Rightarrow> 'k::linorder option) \<Rightarrow> bool \<Rightarrow> 'a list \<Rightarrow> 'a list" where
  "sort_values key ascending xs =
     (let non_nans = filter (\<lambda>r. key r \<noteq> None) xs;
          nans = filter (\<lambda>r. key r = None) xs;
          k = (\<lambda>r. the (key r))
      in (if ascending then sort_key k non_nans else rev (sort_key k (rev non_nans))) @ nans)"

text \<open>The key of each column that the model carries; any other name leaves the order.\<close>

definition sort_column :: "string \<Rightarrow> bool \<Rightarrow> passenger list \<Rightarrow> passenger list" where
  "sort_column c ascending rs =
     (if c = ''PassengerId'' then sort_values PassengerId ascending rs
      else if c = ''Survived'' then sort_values Survived ascending rs
      else if c = ''Pclass'' then sort_values Pclass ascending rs
      else if c = ''Name'' then sort_values Name ascending rs
      else if c = ''Sex'' then sort_values Sex ascending rs
      else if c = ''Age'' then sort_values Age ascending rs
      else if c = ''SibSp'' then sort_values SibSp ascending rs
      else if c = ''Parch'' then sort_values Parch ascending rs
      else if c = ''Fare'' then sort_values Fare ascending rs
      else if c = ''Age_wiki'' then sort_values Age_wiki ascending rs
      else if c = ''Boarded'' then sort_values Boarded ascending rs
      else if c = ''Embarked'' then sort_values Embarked ascending rs
      else if c = ''Destination'' then sort_values Destination ascending rs
      else if c = ''Lifeboat'' then sort_values Lifeboat ascending rs
      else if c = ''Hometown'' then sort_values Hometown ascending rs
      else rs)"

subsection \<open>/api/heatmap\<close>

record heat_point =
  hp_fare :: "rat option"
  hp_survived :: "int option"
  hp_class :: "int option"

text \<open>\<^verbatim>\<open>df[[c1, c2, ...]]\<close> raises \<^verbatim>\<open>KeyError\<close> with the names that are not columns.\<close>

definition getitem_list :: "dataframe \<Rightarrow> string list \<Rightarrow> error + dataframe" where
  "getitem_list df cs =
     (let missing = filter (\<lambda>c. c \<notin> set (columns df)) cs
      in if missing = [] then Inr (df\<lparr>columns := cs\<rparr>) else Inl (KeyError missing))"

text \<open>\<^verbatim>\<open>range(n)\<close>.\<close>

definition range :: "int \<Rightarrow> int list" where
  "range n = [0..n - 1]"

text \<open>
  \<^verbatim>\<open>hm.iloc[[...]]\<close> with a list of positions: a negative position counts from the
  end, and a position outside the frame raises \<^verbatim>\<open>IndexError\<close>.
\<close>

definition iloc_list :: "'a list \<Rightarrow> int list \<Rightarrow> error + 'a list" where
  "iloc_list xs ps =
     (if \<forall>i \<in> set ps. - len xs \<le> i \<and> i < len xs
      then Inr (map (\<lambda>i. xs ! nat (if i < 0 then len xs + i else i)) ps)
      else Inl IndexError)"

text \<open>
  \<^verbatim>\<open>n: int = Query(200, le=500)\<close>: a request with \<open>n\<close> above 500 is refused before the
  handler runs. \<^verbatim>\<open>int(i*len(hm)/n)\<close> truncates a quotient that is never negative, which
  is the integer quotient.
\<close>

definition heatmap :: "dataframe \<Rightarrow> int \<Rightarrow> error + heat_point list" where
  "heatmap df n =
     (if 500 < n then Inl ValidationError
      else
        case getitem_list df [''Fare'', ''Survived'', ''Pclass''] of
          Inl e \<Rightarrow> Inl e
        | Inr sel \<Rightarrow>
            (let hm = sort_values Fare True (filter (\<lambda>r. Fare r \<noteq> None) (rows sel))
             in case (if n < len hm
                      then iloc_list hm (map (\<lambda>i. i * len hm div n) (range n))
                      else Inr hm) of
                  Inl e \<Rightarrow> Inl e
                | Inr hm' \<Rightarrow>
                    Inr (map (\<lambda>r. \<lparr> hp_fare = map_option round2 (Fare r),
                                     hp_survived = Survived r,
                                     hp_class = Pclass r \<rparr>) hm')))"

subsection \<open>/api/passengers\<close>

record display_row =
  dr_id :: "int option"
  dr_name :: "string option"
  dr_sex :: "string option"
  dr_age :: "rat option"
  dr_cls :: "int option"
  dr_boarded :: "string option"
  dr_dest :: "string option"
  dr_lifeboat :: "string option"
  dr_fare :: "rat option"
  dr_survived :: "int option"
  dr_hometown :: "string option"

record page_result =
  pg_total :: int
  pg_page :: int
  pg_per_page :: int
  pg_total_pages :: int
  pg_rows :: "display_row list"

text \<open>\<^verbatim>\<open>str.lower()\<close> on ASCII text.\<close>

definition lower :: "string \<Rightarrow> string" where
  "lower s =
     map (\<lambda>c. if CHR ''A'' \<le> c \<and> c \<le> CHR ''Z'' then char_of (of_char c + (32::nat)) else c) s"

text \<open>
  \<^verbatim>\<open>df[c].str.lower().str.contains(ql, na=False)\<close>. The \<^verbatim>\<open>.str\<close> accessor exists on a
  column of text only: a column in which every value is missing has been read as floats
  and raises \<^verbatim>\<open>AttributeError\<close> (a frame without rows keeps its text columns).
  \<^verbatim>\<open>contains\<close> compiles its pattern as a regular expression before it looks at any
  value. The regular-expression library is not part of this program: \<open>re_compile\<close> stands
  for it, giving the search function of a pattern, or \<open>None\<close> where the library rejects
  the pattern.
\<close>

definition str_contains ::
  "(string \<Rightarrow> (string \<Rightarrow> bool) option) \<Rightarrow> dataframe \<Rightarrow> (passenger \<Rightarrow> string option) \<Rightarrow> string
     \<Rightarrow> error + bool list" where
  "str_contains re_compile df field ql =
     (if rows df \<noteq> [] \<and> (\<forall>r \<in> set (rows df). field r = None) then Inl AttributeError
      else
        case re_compile ql of
          None \<Rightarrow> Inl ReError
        | Some search \<Rightarrow>
            Inr (map (\<lambda>r. case field r of None \<Rightarrow> False | Some s \<Rightarrow> search (lower s)) (rows df)))"

text \<open>
  The loop \<^verbatim>\<open>for c in ["Name","Hometown","Destination"]\<close>, which or-combines the matches
  of the columns that the frame has into \<open>tm\<close>.
\<close>

fun text_mask ::
  "(string \<Rightarrow> (string \<Rightarrow> bool) option) \<Rightarrow> dataframe \<Rightarrow> string
     \<Rightarrow> (string \<times> (passenger \<Rightarrow> string option)) list \<Rightarrow> bool list \<Rightarrow> error + bool list" where
  "text_mask re_compile df ql [] tm = Inr tm"
| "text_mask re_compile df ql ((c, field) # cs) tm =
     (if c \<in> set (columns df)
      then (case str_contains re_compile df field ql of
              Inl e \<Rightarrow> Inl e
            | Inr hit \<Rightarrow> text_mask re_compile df ql cs (map2 (\<or>) tm hit))
      else text_mask re_compile df ql cs tm)"

text \<open>
  The mask of the three filters. \<open>py_int\<close> stands for Python's \<^verbatim>\<open>int()\<close> on a string,
  \<open>None\<close> where it raises \<^verbatim>\<open>ValueError\<close>. A comparison with a missing value selects
  nothing. In \<^verbatim>\<open>df["Pclass"]==int(cls)\<close> the column is looked up before \<^verbatim>\<open>cls\<close> is
  parsed.
\<close>

definition query_mask ::
  "(string \<Rightarrow> (string \<Rightarrow> bool) option) \<Rightarrow> (string \<Rightarrow> int option) \<Rightarrow> dataframe
     \<Rightarrow> string \<Rightarrow> string \<Rightarrow> string \<Rightarrow> error + bool list" where
  "query_mask re_compile py_int df q survived cls =
     (let m0 = map (\<lambda>_. True) (rows df)
      in case (if q \<noteq> []
               then (case text_mask re_compile df (lower q)
                            [(''Name'', Name), (''Hometown'', Hometown), (''Destination'', Destination)]
                            (map (\<lambda>_. False) (rows df)) of
                       Inl e \<Rightarrow> Inl e
                     | Inr tm \<Rightarrow> Inr (map2 (\<and>) m0 tm))
               else Inr m0) of
           Inl e \<Rightarrow> Inl e
         | Inr m1 \<Rightarrow>
             (case (if survived = ''survived''
                    then (case getitem df ''Survived'' Survived of
                            Inl e \<Rightarrow> Inl e
                          | Inr s \<Rightarrow> Inr (map2 (\<and>) m1 (map (\<lambda>v. v = Some 1) s)))
                    else if survived = ''lost''
                    then (case getitem df ''Survived'' Survived of
                            Inl e \<Rightarrow> Inl e
                          | Inr s \<Rightarrow> Inr (map2 (\<and>) m1 (map (\<lambda>v. v = Some 0) s)))
                    else Inr m1) of
                Inl e \<Rightarrow> Inl e
              | Inr m2 \<Rightarrow>
                  (if cls \<noteq> ''all''
                   then (case getitem df ''Pclass'' Pclass of
                           Inl e \<Rightarrow> Inl e
                         | Inr pc \<Rightarrow>
                             (case py_int cls of
                                None \<Rightarrow> Inl ValueError
                              | Some k \<Rightarrow> Inr (map2 (\<and>) m2 (map (\<lambda>v. v = Some k) pc))))
                   else Inr m2)))"

text \<open>
  \<^verbatim>\<open>filtered.iloc[a:b]\<close>: a Python slice, where a negative bound counts from the end
  and every bound is clipped to the frame.
\<close>

definition slice_bound :: "int \<Rightarrow> int \<Rightarrow> nat" where
  "slice_bound n i = nat (if i < 0 then max 0 (n + i) else min i n)"

definition iloc_slice :: "'a list \<Rightarrow> int \<Rightarrow> int \<Rightarrow> 'a list" where
  "iloc_slice xs a b =
     (let s = slice_bound (len xs) a; e = slice_bound (len xs) b
      in take (e - s) (drop s xs))"

text \<open>
  The display shape of one row. \<^verbatim>\<open>r.get(c)\<close> is \<^verbatim>\<open>None\<close> when the frame has no
  column \<open>c\<close>, and \<^verbatim>\<open>r.get(c, d)\<close> is \<open>d\<close> then; both give the value of the row, missing
  or not, when the column is there.
\<close>

definition get :: "dataframe \<Rightarrow> passenger \<Rightarrow> string \<Rightarrow> (passenger \<Rightarrow> 'a option) \<Rightarrow> 'a option" where
  "get df r c field = (if c \<in> set (columns df) then field r else None)"

definition get_default ::
  "dataframe \<Rightarrow> passenger \<Rightarrow> string \<Rightarrow> (passenger \<Rightarrow> 'a option) \<Rightarrow> 'a \<Rightarrow> 'a option" where
  "get_default df r c field d = (if c \<in> set (columns df) then field r else Some d)"

definition display :: "dataframe \<Rightarrow> passenger \<Rightarrow> display_row" where
  "display df r =
     (let col = port_col df
      in \<lparr> dr_id = get df r ''PassengerId'' PassengerId,
           dr_name = get_default df r ''Name'' Name ''Unknown'',
           dr_sex = get_default df r ''Sex'' Sex [],
           dr_age = get df r ''Age'' Age,
           dr_cls = get df r ''Pclass'' Pclass,
           dr_boarded = get df r col (port_field col),
           dr_dest = get df r ''Destination'' Destination,
           dr_lifeboat = get df r ''Lifeboat'' Lifeboat,
           dr_fare = map_option round2 (get df r ''Fare'' Fare),
           dr_survived = get df r ''Survived'' Survived,
           dr_hometown = get df r ''Hometown'' Hometown \<rparr>)"

text \<open>
  The handler. \<^verbatim>\<open>page: int = Query(1, ge=1)\<close> and
  \<^verbatim>\<open>per_page: int = Query(50, ge=1, le=200)\<close> refuse a request outside their bounds
  before the handler runs.
\<close>

definition passengers ::
  "(string \<Rightarrow> (string \<Rightarrow> bool) option) \<Rightarrow> (string \<Rightarrow> int option) \<Rightarrow> dataframe
     \<Rightarrow> string \<Rightarrow> string \<Rightarrow> string \<Rightarrow> int \<Rightarrow> int \<Rightarrow> string \<Rightarrow> string \<Rightarrow> error + page_result" where
  "passengers re_compile py_int df q survived cls page per_page sort_by sort_dir =
     (if page < 1 \<or> per_page < 1 \<or> 200 < per_page then Inl ValidationError
      else
        case query_mask re_compile py_int df q survived cls of
          Inl e \<Rightarrow> Inl e
        | Inr msk \<Rightarrow>
            (let filtered = boolean_index df msk;
                 filtered = (if sort_by \<in> set (columns filtered)
                             then filtered\<lparr>rows := sort_column sort_by (sort_dir = ''asc'') (rows filtered)\<rparr>
                             else filtered);
                 total = len (rows filtered);
                 tp = max 1 \<lceil>(of_int total :: rat) / of_int per_page\<rceil>;
                 page = min page tp;
                 sl = iloc_slice (rows filtered) ((page - 1) * per_page) (page * per_page)
             in Inr \<lparr> pg_total = total, pg_page = page, pg_per_page = per_page,
                      pg_total_pages = tp, pg_rows = map (display df) sl \<rparr>))"

subsection \<open>Rows and frames for the examples\<close>

text \<open>A row in which every value is missing; the examples set the fields they need.\<close>

definition missing_row :: passenger where
  "missing_row =
     \<lparr> PassengerId = None, Survived = None, Pclass = None, Name = None, Sex = None,
       Age = None, SibSp = None, Parch = None, Fare = None, Age_wiki = None,
       Boarded = None, Embarked = None, Destination = None, Lifeboat = None,
       Hometown = None \<rparr>"

text \<open>
  Three passengers, of classes 1, 1 and 3, of whom the first and the third survived.
\<close>

definition three_rows :: "passenger list" where
  "three_rows =
     [missing_row\<lparr>PassengerId := Some 1, Survived := Some 1, Pclass := Some 1,
                  Name := Some ''Allen'', Sex := Some ''female'', Age := Some 29,
                  Fare := Some (2113375 / 10000), Embarked := Some ''Southampton''\<rparr>,
      missing_row\<lparr>PassengerId := Some 2, Survived := Some 0, Pclass := Some 1,
                  Name := Some ''Baxter'', Sex := Some ''male'', Age := Some 12,
                  Fare := Some (2475208 / 10000), Embarked := Some ''Cherbourg''\<rparr>,
      missing_row\<lparr>PassengerId := Some 3, Survived := Some 1, Pclass := Some 3,
                  Name := Some ''Coutts'', Sex := Some ''male'', Age := Some 3,
                  Fare := Some (159 / 10), Embarked := Some ''Southampton''\<rparr>]"

definition three_frame :: dataframe where
  "three_frame =
     \<lparr> columns = [''PassengerId'', ''Survived'', ''Pclass'', ''Name'', ''Sex'', ''Age'',
                  ''Fare'', ''Embarked''],
       rows = three_rows \<rparr>"

text \<open>The same passengers in a frame that has no Survived column.\<close>

definition three_frame_no_survived :: dataframe where
  "three_frame_no_survived =
     \<lparr> columns = [''PassengerId'', ''Pclass'', ''Name'', ''Sex'', ''Age'', ''Fare'', ''Embarked''],
       rows = three_rows \<rparr>"

text \<open>Frames without rows: a file that holds a header line only.\<close>

definition empty_frame :: dataframe where
  "empty_frame = \<lparr> columns = [''Survived'', ''Pclass'', ''Sex'', ''Age'', ''Fare''], rows = [] \<rparr>"

definition empty_frame_no_survived :: dataframe where
  "empty_frame_no_survived = \<lparr> columns = [''Pclass'', ''Sex'', ''Age'', ''Fare''], rows = [] \<rparr>"


subsection \<open>Notation for the statements\<close>




text \<open>
  Two passengers in a frame that has a Name and a Sex column; the name and the sex of the
  second are missing.
\<close>

definition nameless_frame :: dataframe where
  "nameless_frame =
     \<lparr> columns = [''PassengerId'', ''Name'', ''Sex'', ''Fare''],
       rows = [missing_row\<lparr>PassengerId := Some 6, Name := Some ''Moran'', Sex := Some ''male'',
                           Fare := Some (84583 / 10000)\<rparr>,
               missing_row\<lparr>PassengerId := Some 7, Fare := Some (725 / 100)\<rparr>] \<rparr>"

section \<open>Properties\<close>

subsection \<open>Auxiliary facts\<close>

lemma select_zip_map: "map fst (filter snd (zip xs (map p xs))) = filter p xs"
  by (induction xs) auto

lemma rows_boolean_index_map:
  "rows (boolean_index df (map p (rows df))) = filter p (rows df)"
  by (simp add: boolean_index_def select_zip_map)

lemma columns_boolean_index [simp]: "columns (boolean_index df m) = columns df"
  by (simp add: boolean_index_def)

lemma len_eq_0 [simp]: "len xs = 0 \<longleftrightarrow> xs = []"
  by (simp add: len_def)

subsection \<open>The summary\<close>

text \<open>
  Claim C6. Whenever \<open>stats\<close> returns, its counts satisfy
  survivors + lost = total.
\<close>

theorem stats_survivors_plus_lost:
  "stats df = Inr s \<Longrightarrow> st_survivors s + st_lost s = st_total s"
  by (auto simp: stats_def Let_def split: sum.splits)

theorem stats_survivors_plus_lost_witness:
  "stats three_frame =
     Inr \<lparr> st_total = 3, st_survivors = 2, st_lost = 1, st_surv_rate = 667 / 10,
           st_avg_age = Some (147 / 10), st_avg_fare = Some (15825 / 100),
           st_max_fare = Some (24752 / 100) \<rparr>
   \<and> (2::int) + 1 = 3"
proof -
  have h: "stats three_frame =
     Inr \<lparr> st_total = 3, st_survivors = 2, st_lost = 1, st_surv_rate = 667 / 10,
           st_avg_age = Some (147 / 10), st_avg_fare = Some (15825 / 100),
           st_max_fare = Some (24752 / 100) \<rparr>"
    by code_simp
  from stats_survivors_plus_lost [OF h] h show ?thesis by simp
qed

text \<open>
  Claim C7, as the code has it. On an empty table that has a Survived column, \<open>stats\<close>
  returns total 0, survivors 0, lost 0, survival rate 0 (the division is guarded) and no
  average age, average fare or maximal fare. The Survived column is needed: the sum of
  that column is taken before anything else.
\<close>

theorem stats_empty_table:
  "rows df = [] \<Longrightarrow> ''Survived'' \<in> set (columns df) \<Longrightarrow>
   stats df = Inr \<lparr> st_total = 0, st_survivors = 0, st_lost = 0, st_surv_rate = 0,
                     st_avg_age = None, st_avg_fare = None, st_max_fare = None \<rparr>"
  by (simp add: stats_def getitem_def Let_def len_def series_sum_def series_mean_def
      series_max_def dropna_def)

theorem stats_empty_table_witness:
  "rows empty_frame = [] \<and> ''Survived'' \<in> set (columns empty_frame) \<and>
   stats empty_frame = Inr \<lparr> st_total = 0, st_survivors = 0, st_lost = 0, st_surv_rate = 0,
                              st_avg_age = None, st_avg_fare = None, st_max_fare = None \<rparr>"
proof -
  have r: "rows empty_frame = []" and c: "''Survived'' \<in> set (columns empty_frame)"
    by (simp_all add: empty_frame_def)
  from stats_empty_table [OF r c] r c show ?thesis by simp
qed

text \<open>
  The claim as it was written, for every empty table, fails on an empty table without a
  Survived column: there \<open>stats\<close> raises \<^verbatim>\<open>KeyError\<close> and returns no counts.
\<close>

theorem stats_empty_table_counterexample:
  "rows empty_frame_no_survived = [] \<and>
   stats empty_frame_no_survived = Inl (KeyError [''Survived''])"
  by (simp add: empty_frame_no_survived_def stats_def getitem_def)

subsection \<open>Tables without a Survived column\<close>

lemma stats_no_survived:
  "''Survived'' \<notin> set (columns df) \<Longrightarrow> stats df = Inl (KeyError [''Survived''])"
  by (simp add: stats_def getitem_def Let_def)

lemma by_class_entry_no_survived:
  assumes "''Survived'' \<notin> set (columns df)" "''Pclass'' \<in> set (columns df)"
  shows "by_class_entry df (c, l) =
     (if \<exists>r \<in> set (rows df). Pclass r = Some c then Inl (KeyError [''Survived''])
      else Inr None)"
  using assms
  by (auto simp: by_class_entry_def getitem_def Let_def rows_boolean_index_map
      filter_empty_conv comp_def)

lemma by_class_no_survived:
  assumes "''Survived'' \<notin> set (columns df)"
  shows "by_class df =
     (if ''Pclass'' \<notin> set (columns df) then Inl (KeyError [''Pclass''])
      else if \<exists>r \<in> set (rows df). Pclass r \<in> {Some 1, Some 2, Some 3}
           then Inl (KeyError [''Survived'']) else Inr [])"
proof (cases "''Pclass'' \<in> set (columns df)")
  case False
  then show ?thesis by (simp add: by_class_def by_class_entry_def getitem_def)
next
  case True
  show ?thesis
    using True by (auto simp: by_class_def by_class_entry_no_survived [OF assms True])
qed

lemma by_gender_entry_no_survived:
  assumes "''Survived'' \<notin> set (columns df)" "''Sex'' \<in> set (columns df)"
  shows "by_gender_entry df (c, l) =
     (if \<exists>r \<in> set (rows df). Sex r = Some c then Inl (KeyError [''Survived''])
      else Inr None)"
  using assms
  by (auto simp: by_gender_entry_def getitem_def Let_def rows_boolean_index_map
      filter_empty_conv comp_def)

lemma by_gender_no_survived:
  assumes "''Survived'' \<notin> set (columns df)"
  shows "by_gender df =
     (if ''Sex'' \<notin> set (columns df) then Inl (KeyError [''Sex''])
      else if \<exists>r \<in> set (rows df). Sex r \<in> {Some ''female'', Some ''male''}
           then Inl (KeyError [''Survived'']) else Inr [])"
proof (cases "''Sex'' \<in> set (columns df)")
  case False
  then show ?thesis by (simp add: by_gender_def by_gender_entry_def getitem_def)
next
  case True
  show ?thesis
    using True by (auto simp: by_gender_def by_gender_entry_no_survived [OF assms True])
qed

text \<open>
  Claim C10, as the code has it. On a table without a Survived column \<open>stats\<close> always
  raises \<^verbatim>\<open>KeyError\<close>, since it reads the column unconditionally. \<open>by_class\<close> and
  \<open>by_gender\<close> read it only for a group that has a row: they raise when the table lacks
  the grouping column (Pclass, Sex) or when some row is of class 1, 2 or 3 (of sex female
  or male), and return the empty list otherwise.
\<close>

theorem survived_column_required:
  assumes "''Survived'' \<notin> set (columns df)"
  shows "stats df = Inl (KeyError [''Survived''])
       \<and> by_class df =
           (if ''Pclass'' \<notin> set (columns df) then Inl (KeyError [''Pclass''])
            else if \<exists>r \<in> set (rows df). Pclass r \<in> {Some 1, Some 2, Some 3}
                 then Inl (KeyError [''Survived'']) else Inr [])
       \<and> by_gender df =
           (if ''Sex'' \<notin> set (columns df) then Inl (KeyError [''Sex''])
            else if \<exists>r \<in> set (rows df). Sex r \<in> {Some ''female'', Some ''male''}
                 then Inl (KeyError [''Survived'']) else Inr [])"
  using stats_no_survived [OF assms] by_class_no_survived [OF assms]
    by_gender_no_survived [OF assms]
  by simp

theorem survived_column_required_witness:
  "''Survived'' \<notin> set (columns three_frame_no_survived)
   \<and> stats three_frame_no_survived = Inl (KeyError [''Survived''])
   \<and> by_class three_frame_no_survived = Inl (KeyError [''Survived''])
   \<and> by_gender three_frame_no_survived = Inl (KeyError [''Survived''])"
proof -
  have c: "''Survived'' \<notin> set (columns three_frame_no_survived)"
    by (simp add: three_frame_no_survived_def)
  have p: "''Pclass'' \<in> set (columns three_frame_no_survived)"
    and s: "''Sex'' \<in> set (columns three_frame_no_survived)"
    by (simp_all add: three_frame_no_survived_def)
  have r1: "\<exists>r \<in> set (rows three_frame_no_survived). Pclass r \<in> {Some 1, Some 2, Some 3}"
    by (simp add: three_frame_no_survived_def three_rows_def missing_row_def)
  have r2: "\<exists>r \<in> set (rows three_frame_no_survived). Sex r \<in> {Some ''female'', Some ''male''}"
    by (simp add: three_frame_no_survived_def three_rows_def missing_row_def)
  from survived_column_required [OF c] c p s r1 r2 show ?thesis by simp
qed

text \<open>
  The claim as it was written, that each of the three always fails, does not hold for
  \<open>by_class\<close> and \<open>by_gender\<close>: on the empty table without a Survived column both
  return the empty list.
\<close>

theorem survived_column_required_counterexample:
  "''Survived'' \<notin> set (columns empty_frame_no_survived)
   \<and> by_class empty_frame_no_survived = Inr []
   \<and> by_gender empty_frame_no_survived = Inr []"
  by (simp add: empty_frame_no_survived_def by_class_def by_class_entry_def by_gender_def
      by_gender_entry_def getitem_def boolean_index_def)

subsection \<open>Age groups\<close>
























subsection \<open>Boarding ports\<close>














subsection \<open>The heat map sample\<close>

lemma py_round_mono: "x \<le> y \<Longrightarrow> py_round x \<le> py_round y"
proof -
  assume xy: "x \<le> y"
  have fl: "\<lfloor>x\<rfloor> \<le> \<lfloor>y\<rfloor>" using xy by (rule floor_mono)
  have lo: "\<lfloor>z\<rfloor> \<le> py_round z" and hi: "py_round z \<le> \<lfloor>z\<rfloor> + 1" for z
    by (simp_all add: py_round_def Let_def)
  show ?thesis
  proof (cases "\<lfloor>x\<rfloor> < \<lfloor>y\<rfloor>")
    case True
    then show ?thesis using lo [of y] hi [of x] by linarith
  next
    case False
    with fl have eq: "\<lfloor>x\<rfloor> = \<lfloor>y\<rfloor>" by simp
    show ?thesis
      using xy unfolding py_round_def Let_def eq
      by (auto simp: not_less)
  qed
qed

lemma round2_mono: "x \<le> y \<Longrightarrow> round2 x \<le> round2 y"
  unfolding round2_def using py_round_mono [of "x * 100" "y * 100"]
  by (simp add: divide_right_mono)

lemma mset_sort_values: "mset (sort_values key asc xs) = mset xs"
proof -
  have "mset (filter (\<lambda>r. key r \<noteq> None) xs) + mset (filter (\<lambda>r. key r = None) xs) = mset xs"
    by (induction xs) auto
  then show ?thesis
    by (simp add: sort_values_def Let_def)
qed

lemma sort_values_present:
  assumes "\<forall>r \<in> set xs. key r \<noteq> None"
  shows "sort_values key True xs = sort_key (\<lambda>r. the (key r)) xs"
proof -
  have "filter (\<lambda>r. key r \<noteq> None) xs = xs" "filter (\<lambda>r. key r = None) xs = []"
    using assms by (simp_all add: filter_empty_conv)
  then show ?thesis by (simp add: sort_values_def Let_def)
qed

lemma set_range: "set (range n) = {0..n - 1}"
  by (simp add: range_def)

lemma length_range: "int (length (range n)) = max 0 n"
  by (simp add: range_def)

lemma sample_index_mono:
  fixes i j L n :: int
  assumes "i \<le> j" "0 \<le> L" "0 < n"
  shows "i * L div n \<le> j * L div n"
  using assms by (intro zdiv_mono1 mult_right_mono)

lemma sample_index_bound:
  fixes i L n :: int
  assumes "0 \<le> i" "i < n" "n < L"
  shows "0 \<le> i * L div n" and "i * L div n < L"
proof -
  have n: "0 < n" using assms by simp
  show "0 \<le> i * L div n" using assms by (simp add: pos_imp_zdiv_nonneg_iff)
  have "i * L < n * L" using assms by simp
  moreover have "(i * L div n) * n \<le> i * L"
    using n by (metis div_mult_mod_eq pos_mod_sign add.commute le_add_same_cancel2)
  ultimately have "(i * L div n) * n < L * n" by (simp add: mult.commute)
  then show "i * L div n < L" using n by simp
qed

lemma sorted_map_sample:
  fixes k :: "'a \<Rightarrow> 'k::linorder" and g :: "int \<Rightarrow> nat"
  assumes "sorted (map k hm)" "sorted ps" "\<forall>i \<in> set ps. g i < length hm"
    and "\<forall>i \<in> set ps. \<forall>j \<in> set ps. i \<le> j \<longrightarrow> g i \<le> g j"
  shows "sorted (map (\<lambda>i. k (hm ! g i)) ps)"
  using assms(2-)
proof (induction ps)
  case Nil
  then show ?case by simp
next
  case (Cons p ps)
  have "k (hm ! g p) \<le> k (hm ! g q)" if "q \<in> set ps" for q
  proof -
    from that Cons.prems have "g p \<le> g q" "g q < length hm" by auto
    then show ?thesis
      using sorted_nth_mono [OF assms(1), of "g p" "g q"] by simp
  qed
  with Cons show ?case by auto
qed

lemma sorted_map_mono:
  fixes k :: "'a \<Rightarrow> 'k::linorder" and f :: "'k \<Rightarrow> 'l::linorder"
  assumes "sorted (map k xs)" "\<And>x y. x \<le> y \<Longrightarrow> f x \<le> f y"
  shows "sorted (map (\<lambda>x. f (k x)) xs)"
  using assms by (induction xs) auto

lemma iloc_list_in_range:
  assumes "\<forall>i \<in> set ps. 0 \<le> i \<and> i < len xs"
  shows "iloc_list xs ps = Inr (map (\<lambda>i. xs ! nat i) ps)"
proof -
  have "map (\<lambda>i. xs ! nat (if i < 0 then len xs + i else i)) ps = map (\<lambda>i. xs ! nat i) ps"
    using assms by (intro map_cong refl) auto
  moreover have "\<forall>i \<in> set ps. - len xs \<le> i \<and> i < len xs"
    using assms by (auto simp: len_def)
  ultimately show ?thesis by (simp add: iloc_list_def)
qed

lemma heatmap_unfold:
  assumes "n \<le> 500" "''Fare'' \<in> set (columns df)" "''Survived'' \<in> set (columns df)"
    "''Pclass'' \<in> set (columns df)"
  shows "heatmap df n =
     (let hm = sort_key (\<lambda>r. the (Fare r)) (filter (\<lambda>r. Fare r \<noteq> None) (rows df))
      in Inr (map (\<lambda>r. \<lparr> hp_fare = map_option round2 (Fare r), hp_survived = Survived r,
                           hp_class = Pclass r \<rparr>)
           (if n < len hm then map (\<lambda>i. hm ! nat (i * len hm div n)) (range n) else hm)))"
proof -
  define hm where "hm = sort_key (\<lambda>r. the (Fare r)) (filter (\<lambda>r. Fare r \<noteq> None) (rows df))"
  have sv: "sort_values Fare True (filter (\<lambda>r. Fare r \<noteq> None) (rows df)) = hm"
    unfolding hm_def by (rule sort_values_present) simp
  have g: "getitem_list df [''Fare'', ''Survived'', ''Pclass'']
      = Inr (df\<lparr>columns := [''Fare'', ''Survived'', ''Pclass'']\<rparr>)"
    using assms by (simp add: getitem_list_def)
  have il: "iloc_list hm (map (\<lambda>i. i * len hm div n) (range n))
      = Inr (map (\<lambda>i. hm ! nat (i * len hm div n)) (range n))" if "n < len hm"
  proof -
    have "\<forall>j \<in> set (map (\<lambda>i. i * len hm div n) (range n)). 0 \<le> j \<and> j < len hm"
      using that sample_index_bound [of _ n "len hm"] by (auto simp: set_range)
    from iloc_list_in_range [OF this] show ?thesis by (simp add: comp_def)
  qed
  have rs: "rows (df\<lparr>columns := [''Fare'', ''Survived'', ''Pclass'']\<rparr>) = rows df"
    by simp
  show ?thesis
    unfolding heatmap_def Let_def g sum.case rs sv hm_def [symmetric]
    using assms(1) il by simp
qed


text \<open>
  Claim C2, as the code has it. A request with \<open>n\<close> above 500 is refused, not capped.
  For every \<open>n\<close> up to 500, on a frame with the columns Fare, Survived and Pclass,
  \<open>heatmap\<close> returns: it takes the rows with a fare, sorted ascending by fare (\<open>hm\<close>),
  returns a point for each of them when there are at most \<open>n\<close>, and otherwise the
  points of the rows at the positions \<open>i * len hm div n\<close> for \<open>i\<close> from 0 up to
  \<open>n - 1\<close>, which are none when \<open>n\<close> is 0 or negative. The points number at most
  the larger of 0 and \<open>min n 500\<close>, and their fares never decrease. The result is a
  function of the frame and \<open>n\<close>, so it is the same on every call.
\<close>

theorem heatmap_sample:
  assumes "n \<le> 500" and "''Fare'' \<in> set (columns df)" and "''Survived'' \<in> set (columns df)"
    and "''Pclass'' \<in> set (columns df)"
  shows "\<exists>hm out.
      mset hm = mset (filter (\<lambda>r. Fare r \<noteq> None) (rows df))
    \<and> sorted (map (\<lambda>r. the (Fare r)) hm)
    \<and> heatmap df n = Inr out
    \<and> out = map (\<lambda>r. \<lparr> hp_fare = map_option round2 (Fare r), hp_survived = Survived r,
                         hp_class = Pclass r \<rparr>)
               (if n < len hm then map (\<lambda>i. hm ! nat (i * len hm div n)) (range n) else hm)
    \<and> len out \<le> max 0 (min n 500)
    \<and> (\<exists>fs. map hp_fare out = map Some fs \<and> sorted fs)"
proof -
  define hm where "hm = sort_key (\<lambda>r. the (Fare r)) (filter (\<lambda>r. Fare r \<noteq> None) (rows df))"
  define sel where
    "sel = (if n < len hm then map (\<lambda>i. hm ! nat (i * len hm div n)) (range n) else hm)"
  define out where
    "out = map (\<lambda>r. \<lparr> hp_fare = map_option round2 (Fare r), hp_survived = Survived r,
                       hp_class = Pclass r \<rparr>) sel"
  have ms: "mset hm = mset (filter (\<lambda>r. Fare r \<noteq> None) (rows df))"
    by (simp add: hm_def)
  have so: "sorted (map (\<lambda>r. the (Fare r)) hm)"
    unfolding hm_def by (rule sorted_sort_key)
  have res: "heatmap df n = Inr out"
    unfolding out_def sel_def hm_def using heatmap_unfold [OF assms] by (simp only: Let_def)
  have pres: "Fare r \<noteq> None" if "r \<in> set hm" for r
    using that by (simp add: hm_def)
  have idx: "nat (i * len hm div n) < length hm" if "i \<in> set (range n)" "n < len hm" for i
    using that sample_index_bound [of i n "len hm"] by (simp add: set_range len_def)
  have sub: "set sel \<subseteq> set hm"
    using idx by (auto simp: sel_def)
  have ln: "len out \<le> max 0 (min n 500)"
    using assms(1) length_range [of n] by (simp add: out_def sel_def len_def)
  have ss: "sorted (map (\<lambda>r. the (Fare r)) sel)"
  proof (cases "n < len hm")
    case True
    have "sorted (map (\<lambda>i. the (Fare (hm ! nat (i * len hm div n)))) (range n))"
    proof (rule sorted_map_sample [OF so])
      show "sorted (range n)" by (simp add: range_def)
      show "\<forall>i \<in> set (range n). nat (i * len hm div n) < length hm"
        using idx True by blast
      show "\<forall>i \<in> set (range n). \<forall>j \<in> set (range n).
          i \<le> j \<longrightarrow> nat (i * len hm div n) \<le> nat (j * len hm div n)"
        using True sample_index_mono [of _ _ "len hm" n]
        by (auto simp: set_range len_def intro!: nat_mono)
    qed
    with True show ?thesis by (simp add: sel_def comp_def)
  next
    case False
    with so show ?thesis by (simp add: sel_def)
  qed
  have "sorted (map (\<lambda>r. round2 (the (Fare r))) sel)"
    using ss round2_mono by (rule sorted_map_mono)
  moreover have "map_option round2 (Fare r) = Some (round2 (the (Fare r)))" if "r \<in> set sel" for r
    using that sub pres [of r] by (cases "Fare r") auto
  then have "map hp_fare out = map Some (map (\<lambda>r. round2 (the (Fare r))) sel)"
    by (simp add: out_def comp_def)
  ultimately have fs: "\<exists>fs. map hp_fare out = map Some fs \<and> sorted fs"
    by blast
  show ?thesis
    using ms so res ln fs unfolding out_def sel_def
    by (intro exI [of _ hm] exI [of _ out] conjI) (simp_all only: out_def sel_def)
qed

theorem heatmap_sample_witness:
  "(2::int) \<le> 500 \<and> ''Fare'' \<in> set (columns three_frame)
   \<and> ''Survived'' \<in> set (columns three_frame) \<and> ''Pclass'' \<in> set (columns three_frame)
   \<and> heatmap three_frame 2 =
       Inr [\<lparr> hp_fare = Some (159 / 10), hp_survived = Some 1, hp_class = Some 3 \<rparr>,
            \<lparr> hp_fare = Some (21134 / 100), hp_survived = Some 1, hp_class = Some 1 \<rparr>]
   \<and> len [\<lparr> hp_fare = Some (159 / 10), hp_survived = Some 1, hp_class = Some 3 \<rparr>,
            \<lparr> hp_fare = Some (21134 / 100), hp_survived = Some 1, hp_class = Some 1 \<rparr>]
       \<le> max 0 (min 2 500)"
proof -
  have n: "(2::int) \<le> 500" by simp
  have c: "''Fare'' \<in> set (columns three_frame)" "''Survived'' \<in> set (columns three_frame)"
    "''Pclass'' \<in> set (columns three_frame)"
    by (simp_all add: three_frame_def)
  have v: "heatmap three_frame 2 =
       Inr [\<lparr> hp_fare = Some (159 / 10), hp_survived = Some 1, hp_class = Some 3 \<rparr>,
            \<lparr> hp_fare = Some (21134 / 100), hp_survived = Some 1, hp_class = Some 1 \<rparr>]"
    by code_simp
  from heatmap_sample [OF n c] obtain out where o: "heatmap three_frame 2 = Inr out"
    and ln: "len out \<le> max 0 (min 2 500)"
    by blast
  from o v have "out = [\<lparr> hp_fare = Some (159 / 10), hp_survived = Some 1, hp_class = Some 3 \<rparr>,
            \<lparr> hp_fare = Some (21134 / 100), hp_survived = Some 1, hp_class = Some 1 \<rparr>]"
    by simp
  with ln n c v show ?thesis by blast
qed

text \<open>
  The claim as it was written, for every \<open>n\<close>, fails above 500, where the request is
  refused instead of being capped, and below 0, where the empty result has more points
  than \<open>min n 500\<close>.
\<close>

theorem heatmap_sample_counterexample:
  "heatmap three_frame 501 = Inl ValidationError
   \<and> heatmap three_frame (- 1) = Inr []
   \<and> \<not> len ([] :: heat_point list) \<le> min (- 1) 500"
  by code_simp

subsection \<open>The passenger listing\<close>

lemma mset_sort_column: "mset (sort_column c asc rs) = mset rs"
  by (simp add: sort_column_def mset_sort_values)

lemma length_sort_column: "length (sort_column c asc rs) = length rs"
  using mset_sort_column [of c asc rs] by (metis size_mset)

lemma slice_bound_nonneg: "0 \<le> a \<Longrightarrow> slice_bound (len xs) a = min (nat a) (length xs)"
  by (simp add: slice_bound_def len_def min_def nat_le_iff)

lemma take_drop_clip:
  "take (min (s + q) (length xs) - min s (length xs)) (drop (min s (length xs)) xs)
     = take q (drop s xs)"
proof (cases "s \<le> length xs")
  case True
  then have "min (s + q) (length xs) - min s (length xs) = min q (length (drop s xs))"
    unfolding length_drop by arith
  moreover have "take (min q (length (drop s xs))) (drop s xs) = take q (drop s xs)"
    by (simp add: min_def)
  ultimately show ?thesis using True by (simp add: min_def)
next
  case False
  then show ?thesis by (simp add: min_def)
qed

lemma iloc_slice_page:
  fixes p pp :: int
  assumes "1 \<le> p" "1 \<le> pp"
  shows "iloc_slice xs ((p - 1) * pp) (p * pp) = take (nat pp) (drop (nat ((p - 1) * pp)) xs)"
proof -
  have a: "0 \<le> (p - 1) * pp" "0 \<le> p * pp"
    using assms by simp_all
  have "p * pp = (p - 1) * pp + pp" by (simp add: algebra_simps)
  then have b: "nat (p * pp) = nat ((p - 1) * pp) + nat pp"
    using a assms by (simp add: nat_add_distrib)
  show ?thesis
    unfolding iloc_slice_def Let_def slice_bound_nonneg [OF a(1)] slice_bound_nonneg [OF a(2)] b
    by (rule take_drop_clip)
qed

lemma concat_pages_nat:
  "concat (map (\<lambda>k. take pp (drop (k * pp) xs)) [0..<t]) = take (t * pp) xs"
proof (induction t)
  case 0
  then show ?case by simp
next
  case (Suc t)
  have "take (t * pp + pp) xs = take (t * pp) xs @ take pp (drop (t * pp) xs)"
    by (rule take_add)
  moreover have "Suc t * pp = t * pp + pp" by simp
  ultimately show ?case using Suc by (simp add: add.commute)
qed

lemma upto_as_map: "0 \<le> t \<Longrightarrow> [1..t] = map (\<lambda>k. int k + 1) [0..<nat t]"
proof (induction "nat t" arbitrary: t)
  case 0
  then show ?case by simp
next
  case (Suc n)
  then have t: "t = int n + 1" by linarith
  have "[1..int n + 1] = [1..int n] @ [int n + 1]"
    by (simp add: upto_rec2)
  moreover have "[1..int n] = map (\<lambda>k. int k + 1) [0..<nat (int n)]"
    using Suc(1) [of "int n"] by simp
  moreover have "nat (int n + 1) = Suc n" by simp
  ultimately show ?case unfolding t by simp
qed

lemma concat_pages:
  fixes pp tp :: int
  assumes "1 \<le> pp" "0 \<le> tp" "len xs \<le> tp * pp"
  shows "concat (map (\<lambda>p. take (nat pp) (drop (nat ((p - 1) * pp)) xs)) [1..tp]) = xs"
proof -
  have "concat (map (\<lambda>p. take (nat pp) (drop (nat ((p - 1) * pp)) xs)) [1..tp])
      = concat (map (\<lambda>k. take (nat pp) (drop (k * nat pp) xs)) [0..<nat tp])"
    using assms(1) by (simp add: upto_as_map [OF assms(2)] comp_def nat_mult_distrib)
  also have "\<dots> = take (nat tp * nat pp) xs"
    by (rule concat_pages_nat)
  also have "\<dots> = xs"
  proof -
    have "length xs = nat (len xs)" by (simp add: len_def)
    also have "\<dots> \<le> nat (tp * pp)" by (rule nat_mono [OF assms(3)])
    also have "\<dots> = nat tp * nat pp" by (rule nat_mult_distrib [OF assms(2)])
    finally show ?thesis by simp
  qed
  finally show ?thesis .
qed


lemma passengers_unfold:
  assumes "1 \<le> page" "1 \<le> per_page" "per_page \<le> 200"
    and "query_mask rc pint df q sv cls = Inr m"
  shows "passengers rc pint df q sv cls page per_page sort_by sort_dir =
     (let fs = (if sort_by \<in> set (columns df)
                then sort_column sort_by (sort_dir = ''asc'') (rows (boolean_index df m))
                else rows (boolean_index df m));
          tp = max 1 \<lceil>(of_int (len fs) :: rat) / of_int per_page\<rceil>
      in Inr \<lparr> pg_total = len fs, pg_page = min page tp, pg_per_page = per_page,
                pg_total_pages = tp,
                pg_rows = map (display df)
                  (take (nat per_page) (drop (nat ((min page tp - 1) * per_page)) fs)) \<rparr>)"
proof -
  define fs where "fs = (if sort_by \<in> set (columns df)
                then sort_column sort_by (sort_dir = ''asc'') (rows (boolean_index df m))
                else rows (boolean_index df m))"
  define tp where "tp = max 1 \<lceil>(of_int (len fs) :: rat) / of_int per_page\<rceil>"
  have p: "1 \<le> min page tp" using assms(1) by (simp add: tp_def)
  have sl: "iloc_slice fs ((min page tp - 1) * per_page) (min page tp * per_page)
      = take (nat per_page) (drop (nat ((min page tp - 1) * per_page)) fs)"
    by (rule iloc_slice_page [OF p assms(2)])
  have rs: "rows (if sort_by \<in> set (columns (boolean_index df m))
             then boolean_index df m
                  \<lparr>rows := sort_column sort_by (sort_dir = ''asc'') (rows (boolean_index df m))\<rparr>
             else boolean_index df m) = fs"
    by (simp add: fs_def)
  show ?thesis
    unfolding passengers_def Let_def assms(4) sum.case rs
    unfolding tp_def [symmetric] sl
    using assms(1-3) by (simp add: fs_def tp_def)
qed

lemma ceiling_pages:
  fixes n pp :: int
  assumes "1 \<le> pp" "0 \<le> n"
  shows "n \<le> max 1 \<lceil>(of_int n :: rat) / of_int pp\<rceil> * pp"
proof -
  have "(of_int n :: rat) / of_int pp \<le> of_int \<lceil>(of_int n :: rat) / of_int pp\<rceil>"
    by (rule le_of_int_ceiling)
  moreover have "(0::rat) < of_int pp" using assms(1) by simp
  ultimately have "(of_int n :: rat) \<le> of_int \<lceil>(of_int n :: rat) / of_int pp\<rceil> * of_int pp"
    by (simp only: pos_divide_le_eq)
  then have "n \<le> \<lceil>(of_int n :: rat) / of_int pp\<rceil> * pp"
    by (metis of_int_le_iff of_int_mult)
  also have "\<dots> \<le> max 1 \<lceil>(of_int n :: rat) / of_int pp\<rceil> * pp"
    using assms(1) by (intro mult_right_mono) simp_all
  finally show ?thesis .
qed

text \<open>
  Claim C4, as the code has it. The filters are applied before the pages are counted,
  and a filter that the table does not accept (a Survived or Pclass column that is not
  there, a class that is not an integer, a search pattern that does not compile, a
  text column without text) raises, whatever page is asked for. For every table, every
  filter that the table accepts, every page size from 1 to 200 and every page from 1 on,
  \<open>passengers\<close> returns; its total is the number of rows that the filter selects, its
  number of pages is that total divided by the page size and rounded up, but at least 1,
  and the page it returns is the requested page or, when that is beyond the last page,
  the last page.
\<close>

theorem passengers_page_clamp:
  assumes "1 \<le> per_page" and "per_page \<le> 200" and "1 \<le> page"
    and "query_mask rc pint df q sv cls = Inr m"
  shows "\<exists>res. passengers rc pint df q sv cls page per_page sort_by sort_dir = Inr res
     \<and> pg_total res = len (rows (boolean_index df m))
     \<and> pg_total_pages res = max 1 \<lceil>(of_int (pg_total res) :: rat) / of_int per_page\<rceil>
     \<and> pg_page res = min page (pg_total_pages res)
     \<and> 1 \<le> pg_page res \<and> pg_page res \<le> pg_total_pages res"
proof -
  have "len (sort_column sort_by (sort_dir = ''asc'') (rows (boolean_index df m)))
      = len (rows (boolean_index df m))"
    by (simp add: len_def length_sort_column)
  then show ?thesis
    using assms(3)
    unfolding passengers_unfold [OF assms(3,1,2,4)] Let_def
    by (auto simp: min_def)
qed

theorem passengers_page_clamp_witness:
  "(1::int) \<le> 1 \<and> (1::int) \<le> 200 \<and> (1::int) \<le> 5
   \<and> query_mask (\<lambda>_. None) (\<lambda>_. None) three_frame [] ''survived'' ''all'' = Inr [True, False, True]
   \<and> (\<exists>res. passengers (\<lambda>_. None) (\<lambda>_. None) three_frame [] ''survived'' ''all'' 5 1 ''PassengerId'' ''asc''
              = Inr res
            \<and> pg_total res = 2 \<and> pg_total_pages res = 2 \<and> pg_page res = 2)"
proof -
  have m: "query_mask (\<lambda>_. None) (\<lambda>_. None) three_frame [] ''survived'' ''all'' = Inr [True, False, True]"
    by code_simp
  have t: "len (rows (boolean_index three_frame [True, False, True])) = 2"
    by code_simp
  have c: "max 1 \<lceil>(of_int 2 :: rat) / of_int 1\<rceil> = (2::int)"
    by simp
  from passengers_page_clamp [of 1 5, OF _ _ _ m, of "''PassengerId''" "''asc''"]
  obtain res where
    "passengers (\<lambda>_. None) (\<lambda>_. None) three_frame [] ''survived'' ''all'' 5 1 ''PassengerId'' ''asc'' = Inr res"
    "pg_total res = 2"
    "pg_total_pages res = max 1 \<lceil>(of_int (pg_total res) :: rat) / of_int 1\<rceil>"
    "pg_page res = min 5 (pg_total_pages res)"
    unfolding t by auto
  with c m show ?thesis by auto
qed

text \<open>
  The claim as it was written, for every table and filter, fails where the filter itself
  raises: the filter for survivors on a table without a Survived column.
\<close>

theorem passengers_page_clamp_counterexample:
  "passengers (\<lambda>_. None) (\<lambda>_. None) three_frame_no_survived [] ''survived'' ''all'' 1 50
     ''PassengerId'' ''asc'' = Inl (KeyError [''Survived''])"
  by code_simp

lemma passengers_pages_cover_aux:
  assumes "1 \<le> per_page" and "per_page \<le> 200"
    and "query_mask rc pint df q sv cls = Inr m"
  shows "\<exists>fs tp.
       mset fs = mset (rows (boolean_index df m))
     \<and> 1 \<le> tp
     \<and> (\<forall>p \<in> set [1..tp]. \<exists>res.
            passengers rc pint df q sv cls p per_page sort_by sort_dir = Inr res
          \<and> pg_total_pages res = tp \<and> pg_page res = p \<and> pg_total res = len fs)
     \<and> concat (map (\<lambda>p. case passengers rc pint df q sv cls p per_page sort_by sort_dir of
                             Inr res \<Rightarrow> pg_rows res | Inl e \<Rightarrow> [])
                 [1..tp]) = map (display df) fs"
proof -
  define fs where "fs = (if sort_by \<in> set (columns df)
                then sort_column sort_by (sort_dir = ''asc'') (rows (boolean_index df m))
                else rows (boolean_index df m))"
  define tp where "tp = max 1 \<lceil>(of_int (len fs) :: rat) / of_int per_page\<rceil>"
  have ms: "mset fs = mset (rows (boolean_index df m))"
    by (simp add: fs_def mset_sort_column)
  have tp1: "1 \<le> tp" by (simp add: tp_def)
  have pg: "passengers rc pint df q sv cls p per_page sort_by sort_dir =
      Inr \<lparr> pg_total = len fs, pg_page = p, pg_per_page = per_page, pg_total_pages = tp,
            pg_rows = map (display df)
              (take (nat per_page) (drop (nat ((p - 1) * per_page)) fs)) \<rparr>"
    if "p \<in> set [1..tp]" for p
  proof -
    from that have p: "1 \<le> p" "min p tp = p" by simp_all
    show ?thesis
      unfolding passengers_unfold [OF p(1) assms] Let_def fs_def [symmetric]
      unfolding tp_def [symmetric] p(2) ..
  qed
  have "map (\<lambda>p. case passengers rc pint df q sv cls p per_page sort_by sort_dir of
                             Inr res \<Rightarrow> pg_rows res | Inl e \<Rightarrow> []) [1..tp]
      = map (\<lambda>p. map (display df) (take (nat per_page) (drop (nat ((p - 1) * per_page)) fs)))
          [1..tp]"
    by (rule map_cong [OF refl]) (simp add: pg)
  then have "concat (map (\<lambda>p. case passengers rc pint df q sv cls p per_page sort_by sort_dir of
                             Inr res \<Rightarrow> pg_rows res | Inl e \<Rightarrow> []) [1..tp])
      = map (display df)
          (concat (map (\<lambda>p. take (nat per_page) (drop (nat ((p - 1) * per_page)) fs)) [1..tp]))"
    by (simp only: map_concat map_map comp_def)
  also have "\<dots> = map (display df) fs"
  proof -
    have "len fs \<le> tp * per_page"
      unfolding tp_def by (rule ceiling_pages [OF assms(1)]) (simp add: len_def)
    from concat_pages [OF assms(1) _ this] tp1 show ?thesis by simp
  qed
  finally have cc: "concat (map (\<lambda>p. case passengers rc pint df q sv cls p per_page sort_by sort_dir of
                             Inr res \<Rightarrow> pg_rows res | Inl e \<Rightarrow> []) [1..tp]) = map (display df) fs" .
  have al: "\<forall>p \<in> set [1..tp]. \<exists>res.
            passengers rc pint df q sv cls p per_page sort_by sort_dir = Inr res
          \<and> pg_total_pages res = tp \<and> pg_page res = p \<and> pg_total res = len fs"
    using pg by simp
  from ms tp1 al cc show ?thesis by blast
qed

lemma passengers_Inr_accepted:
  assumes "passengers rc pint df q sv cls page per_page sort_by sort_dir = Inr res"
  shows "1 \<le> page \<and> 1 \<le> per_page \<and> per_page \<le> 200
       \<and> (\<exists>m. query_mask rc pint df q sv cls = Inr m)"
  using assms unfolding passengers_def
  by (cases "query_mask rc pint df q sv cls") (auto split: if_splits)

text \<open>
  Claim C3. Whenever \<open>passengers\<close> answers the request for page 1, with any filter,
  sort column, sort direction and page size, let \<open>tp\<close> be the number of pages that it
  reports. Then every page from 1 to \<open>tp\<close> is returned, each reporting the same
  \<open>tp\<close>, and the rows of these pages, one page after the other, are the display rows
  of a list \<open>fs\<close> that holds the rows selected by the filter, each as often as the
  filter selects it: no row is left out and none is repeated.
\<close>

theorem passengers_pages_cover:
  assumes "passengers rc pint df q sv cls 1 per_page sort_by sort_dir = Inr first"
  shows "\<exists>m fs.
       query_mask rc pint df q sv cls = Inr m
     \<and> mset fs = mset (rows (boolean_index df m))
     \<and> (\<forall>p \<in> set [1..pg_total_pages first]. \<exists>res.
            passengers rc pint df q sv cls p per_page sort_by sort_dir = Inr res
          \<and> pg_total_pages res = pg_total_pages first \<and> pg_page res = p)
     \<and> concat (map (\<lambda>p. case passengers rc pint df q sv cls p per_page sort_by sort_dir of
                             Inr res \<Rightarrow> pg_rows res | Inl e \<Rightarrow> [])
                 [1..pg_total_pages first]) = map (display df) fs"
proof -
  from passengers_Inr_accepted [OF assms] obtain m where
    b: "1 \<le> per_page" "per_page \<le> 200" and m: "query_mask rc pint df q sv cls = Inr m"
    by blast
  from passengers_pages_cover_aux [OF b m, of sort_by sort_dir] obtain fs tp where
    ms: "mset fs = mset (rows (boolean_index df m))" and tp1: "1 \<le> tp"
    and al: "\<forall>p \<in> set [1..tp]. \<exists>res.
            passengers rc pint df q sv cls p per_page sort_by sort_dir = Inr res
          \<and> pg_total_pages res = tp \<and> pg_page res = p \<and> pg_total res = len fs"
    and cc: "concat (map (\<lambda>p. case passengers rc pint df q sv cls p per_page sort_by sort_dir of
                             Inr res \<Rightarrow> pg_rows res | Inl e \<Rightarrow> [])
                 [1..tp]) = map (display df) fs"
    by blast
  from tp1 have "1 \<in> set [1..tp]" by simp
  with al assms have tp: "tp = pg_total_pages first" by fastforce
  from m ms al cc show ?thesis unfolding tp by blast
qed

theorem passengers_pages_cover_witness:
  "passengers (\<lambda>_. None) (\<lambda>_. None) three_frame [] ''all'' ''all'' 1 2 ''Fare'' ''desc'' =
     Inr \<lparr> pg_total = 3, pg_page = 1, pg_per_page = 2, pg_total_pages = 2,
           pg_rows = map (display three_frame) [three_rows ! 1, three_rows ! 0] \<rparr>
   \<and> (\<exists>fs. mset fs = mset (rows three_frame)
         \<and> concat (map (\<lambda>p. case passengers (\<lambda>_. None) (\<lambda>_. None) three_frame [] ''all'' ''all'' p 2
                                        ''Fare'' ''desc'' of
                                 Inr res \<Rightarrow> pg_rows res | Inl e \<Rightarrow> [])
                     [1..2]) = map (display three_frame) fs)
   \<and> concat (map (\<lambda>p. case passengers (\<lambda>_. None) (\<lambda>_. None) three_frame [] ''all'' ''all'' p 2
                                  ''Fare'' ''desc'' of
                           Inr res \<Rightarrow> pg_rows res | Inl e \<Rightarrow> [])
               [1..2])
       = map (display three_frame) [three_rows ! 1, three_rows ! 0, three_rows ! 2]"
proof -
  have f: "passengers (\<lambda>_. None) (\<lambda>_. None) three_frame [] ''all'' ''all'' 1 2 ''Fare'' ''desc'' =
     Inr \<lparr> pg_total = 3, pg_page = 1, pg_per_page = 2, pg_total_pages = 2,
           pg_rows = map (display three_frame) [three_rows ! 1, three_rows ! 0] \<rparr>"
    by code_simp
  have m: "query_mask (\<lambda>_. None) (\<lambda>_. None) three_frame [] ''all'' ''all'' = Inr [True, True, True]"
    by code_simp
  have r: "rows (boolean_index three_frame [True, True, True]) = rows three_frame"
    by code_simp
  have v: "concat (map (\<lambda>p. case passengers (\<lambda>_. None) (\<lambda>_. None) three_frame [] ''all'' ''all'' p 2
                                  ''Fare'' ''desc'' of
                           Inr res \<Rightarrow> pg_rows res | Inl e \<Rightarrow> [])
               [1..2])
       = map (display three_frame) [three_rows ! 1, three_rows ! 0, three_rows ! 2]"
    by code_simp
  from passengers_pages_cover [OF f] obtain m' fs where
    m': "query_mask (\<lambda>_. None) (\<lambda>_. None) three_frame [] ''all'' ''all'' = Inr m'"
    and ms: "mset fs = mset (rows (boolean_index three_frame m'))"
    and cc: "concat (map (\<lambda>p. case passengers (\<lambda>_. None) (\<lambda>_. None) three_frame [] ''all'' ''all'' p 2
                                  ''Fare'' ''desc'' of
                           Inr res \<Rightarrow> pg_rows res | Inl e \<Rightarrow> [])
               [1..pg_total_pages
                 \<lparr> pg_total = 3, pg_page = 1, pg_per_page = 2, pg_total_pages = 2,
                 pg_rows = map (display three_frame) [three_rows ! 1, three_rows ! 0] \<rparr>]) = map (display three_frame) fs"
    by blast
  from m m' have "m' = [True, True, True]" by simp
  with ms r have "mset fs = mset (rows three_frame)" by simp
  moreover from cc have "concat (map (\<lambda>p. case passengers (\<lambda>_. None) (\<lambda>_. None) three_frame [] ''all'' ''all'' p 2
                                  ''Fare'' ''desc'' of
                           Inr res \<Rightarrow> pg_rows res | Inl e \<Rightarrow> [])
               [1..2]) = map (display three_frame) fs"
    by simp
  ultimately show ?thesis using f v by blast
qed

text \<open>
  Claim C8, evaluated where the code departs from it. \<^verbatim>\<open>r.get("Name","Unknown")\<close>
  and \<^verbatim>\<open>r.get("Sex","")\<close> give their default only when the table has no such column.
  In a table that has the columns, a passenger whose name and sex are missing is listed
  with both missing, not as ``Unknown'' and the empty string. The fare is rounded to two
  decimals: 8.4583 is listed as 8.46.
\<close>

theorem passengers_missing_name_not_unknown:
  "passengers (\<lambda>_. None) (\<lambda>_. None) nameless_frame [] ''all'' ''all'' 1 50 ''PassengerId'' ''asc'' =
     Inr \<lparr> pg_total = 2, pg_page = 1, pg_per_page = 50, pg_total_pages = 1,
           pg_rows = [\<lparr> dr_id = Some 6, dr_name = Some ''Moran'', dr_sex = Some ''male'',
                        dr_age = None, dr_cls = None, dr_boarded = None, dr_dest = None,
                        dr_lifeboat = None, dr_fare = Some (846 / 100),
                        dr_survived = None, dr_hometown = None \<rparr>,
                      \<lparr> dr_id = Some 7, dr_name = None, dr_sex = None, dr_age = None,
                        dr_cls = None, dr_boarded = None, dr_dest = None,
                        dr_lifeboat = None, dr_fare = Some (725 / 100),
                        dr_survived = None, dr_hometown = None \<rparr>] \<rparr>"
  by code_simp

end
